theory Spec2Isabelle
  imports Main
begin

section \<open>Static catalogs of the design studio\<close>

text \<open>
  Modelled from the spec: the type \<open>StrategicIntent\<close> is imported from \<open>../types\<close>; its
  fields are the ones the data model lists (\<open>id\<close> is written \<open>intent_id\<close>). Only
  \<open>id\<close>, \<open>title\<close> and \<open>recommendedModules\<close> are read by the functions below. The catalog
  \<open>STRATEGIC_INTENTS\<close> itself is imported from \<open>../constants\<close>; every function that
  reads it takes it as its first argument.
\<close>

record StrategicIntent =
  intent_id :: string
  title :: string
  description :: string
  recommendedModules :: "string list"
  personaAlignment :: "string list"

text \<open>The object literal \<open>MODULE_PHASES\<close>, its own properties in source order.\<close>

definition MODULE_PHASES :: "(string \<times> string) list" where
  "MODULE_PHASES =
    [(''geopolitics'', ''Macro''),
     (''rroi'', ''Macro''),
     (''comfort_index'', ''Macro''),
     (''math_models'', ''Macro''),
     (''rocket_engine'', ''Macro''),
     (''governance_audit'', ''Integrity''),
     (''due_diligence'', ''Integrity''),
     (''symbiotic_matchmaking'', ''Expansion''),
     (''matchmaking_engine'', ''Expansion''),
     (''seam'', ''Expansion''),
     (''partner_intel'', ''Expansion''),
     (''deep_reasoning'', ''Expansion''),
     (''trade_disruption'', ''Expansion''),
     (''predictive_growth'', ''Expansion''),
     (''alternative_locations'', ''Expansion''),
     (''cultural_intel'', ''Execution''),
     (''negotiation_advantage'', ''Execution''),
     (''stakeholder_analysis'', ''Execution''),
     (''relationship_builder'', ''Execution''),
     (''final_review'', ''Execution'')]"

subsection \<open>Property reads on an object literal\<close>

text \<open>
  \<open>MODULE_PHASES\<close> is created by an object literal, so its prototype is
  \<open>Object.prototype\<close> and a read \<open>MODULE_PHASES[k]\<close> that finds no own property \<open>k\<close>
  continues there. These are the property names \<open>Object.prototype\<close> carries; each holds
  a function (or, for \<open>__proto__\<close>, the prototype object itself), never a string.
\<close>

definition Object_prototype_keys :: "string list" where
  "Object_prototype_keys =
    [''constructor'', ''hasOwnProperty'', ''isPrototypeOf'', ''propertyIsEnumerable'',
     ''toLocaleString'', ''toString'', ''valueOf'', ''__proto__'',
     ''__defineGetter__'', ''__defineSetter__'', ''__lookupGetter__'', ''__lookupSetter__'']"

datatype jsval = JUndefined | JString string | JObject

definition get_prop :: "(string \<times> string) list \<Rightarrow> string \<Rightarrow> jsval" where
  "get_prop obj k =
    (case map_of obj k of
       Some v \<Rightarrow> JString v
     | None \<Rightarrow> if k \<in> set Object_prototype_keys then JObject else JUndefined)"

fun truthy :: "jsval \<Rightarrow> bool" where
  "truthy JUndefined = False"
| "truthy (JString s) = (s \<noteq> [])"
| "truthy JObject = True"

text \<open>The operator \<open>a || b\<close>.\<close>

definition js_or :: "jsval \<Rightarrow> jsval \<Rightarrow> jsval" where
  "js_or a b = (if truthy a then a else b)"

section \<open>Report parameters and the handlers that write them\<close>

text \<open>
  Modelled from the spec: the type \<open>ReportParameters\<close> is imported from \<open>../types\<close>. The
  record has the fields the two components read or write; a field the source tests
  against \<open>undefined\<close> is an option. Any further field lives in the record's extension
  and is carried along by \<open>{...params, f: v}\<close>, which is a record update.
\<close>

record ReportParameters =
  skillLevel :: string
  userName :: string
  userDepartment :: string
  userEmail :: string
  userPhone :: string
  organizationType :: string
  organizationSubType :: string
  customOrganizationType :: string
  customOrganizationSubType :: string
  userCountry :: string
  region :: string
  userAddress :: string
  userWebsite :: string
  industry :: "string list"
  initialThought :: "string option"
  problemStatement :: "string option"
  uploadedFileName :: "string option"
  uploadedDocument :: bool
  selectedIntents :: "string list option"
  selectedIntent :: "string option"

text \<open>\<open>params.selectedIntents || []\<close>: an array, even an empty one, is truthy.\<close>

definition selectedIds :: "'a ReportParameters_scheme \<Rightarrow> string list" where
  "selectedIds params = (case selectedIntents params of None \<Rightarrow> [] | Some ids \<Rightarrow> ids)"

text \<open>
  \<open>toggleIntent\<close>: the value is the object handed to \<open>onParamsChange\<close>, which replaces
  the parameters held by the parent.
\<close>

definition toggleIntent ::
  "'a ReportParameters_scheme \<Rightarrow> string \<Rightarrow> 'a ReportParameters_scheme" where
  "toggleIntent params intentId =
    (let currentIntents = selectedIds params;
         newIntents =
           (if intentId \<in> set currentIntents
            then filter (\<lambda>i. i \<noteq> intentId) currentIntents
            else currentIntents @ [intentId])
     in params\<lparr>selectedIntents := Some newIntents,
               selectedIntent :=
                 (if 0 < length newIntents then Some (newIntents ! 0) else None)\<rparr>)"

section \<open>Composition resolver\<close>

text \<open>
  A JavaScript \<open>Set\<close> of strings keeps its elements in first-insertion order:
  \<open>add\<close> of a member changes nothing, \<open>add\<close> of a new element appends it.
\<close>

definition set_add :: "string \<Rightarrow> string list \<Rightarrow> string list" where
  "set_add x s = (if x \<in> set s then s else s @ [x])"

text \<open>
  \<open>activeEngines\<close>. \<open>STRATEGIC_INTENTS.find(i => i.id === id)\<close> is \<open>find\<close> of the list
  library: the first element that satisfies the test, or nothing.
\<close>

definition add_intent :: "StrategicIntent list \<Rightarrow> string list \<Rightarrow> string \<Rightarrow> string list" where
  "add_intent STRATEGIC_INTENTS moduleSet i =
    (case find (\<lambda>x. intent_id x = i) STRATEGIC_INTENTS of
       Some intent \<Rightarrow> foldl (\<lambda>s m. set_add m s) moduleSet (recommendedModules intent)
     | None \<Rightarrow> moduleSet)"

definition activeEngines ::
  "StrategicIntent list \<Rightarrow> 'a ReportParameters_scheme \<Rightarrow> string list" where
  "activeEngines STRATEGIC_INTENTS params =
    (let ids = selectedIds params;
         moduleSet = set_add ''final_review'' (set_add ''geopolitics'' [])
     in foldl (add_intent STRATEGIC_INTENTS) moduleSet ids)"

text \<open>
  \<open>enginesByPhase\<close>. \<open>groups\<close> is the object literal with the four phase keys in source
  order. \<open>phase\<close> is \<open>MODULE_PHASES[engineId] || 'Execution'\<close>. The test
  \<open>if (groups[phase])\<close> reads \<open>groups\<close> at the property key of \<open>phase\<close>: for a string
  that is the string itself (every string \<open>phase\<close> can be is one of the four keys, see
  \<open>phase_of_string\<close> below, and an array is truthy); for an inherited function or
  object it is that value's string conversion, which names no property of \<open>groups\<close> or
  of its prototype, so the read is \<open>undefined\<close> and the push is skipped.
\<close>

definition phase_of :: "string \<Rightarrow> jsval" where
  "phase_of engineId = js_or (get_prop MODULE_PHASES engineId) (JString ''Execution'')"

fun push_group :: "string \<Rightarrow> string \<Rightarrow> (string \<times> string list) list \<Rightarrow> (string \<times> string list) list" where
  "push_group phase engineId [] = []"
| "push_group phase engineId ((k, xs) # groups) =
    (if k = phase then (k, xs @ [engineId]) # groups
     else (k, xs) # push_group phase engineId groups)"

definition place_engine ::
  "(string \<times> string list) list \<Rightarrow> string \<Rightarrow> (string \<times> string list) list" where
  "place_engine groups engineId =
    (case phase_of engineId of
       JString phase \<Rightarrow>
         (case map_of groups phase of
            Some xs \<Rightarrow> push_group phase engineId groups
          | None \<Rightarrow> groups)
     | _ \<Rightarrow> groups)"

definition enginesByPhase :: "string list \<Rightarrow> (string \<times> string list) list" where
  "enginesByPhase engines =
    (let groups = [(''Macro'', []), (''Integrity'', []), (''Expansion'', []), (''Execution'', [])]
     in foldl place_engine groups engines)"

subsection \<open>The other writers of the parameters\<close>

text \<open>\<open>Array.prototype.join\<close> on strings.\<close>

fun join :: "string \<Rightarrow> string list \<Rightarrow> string" where
  "join sep [] = []"
| "join sep [x] = x"
| "join sep (x # y # ys) = x @ sep @ join sep (y # ys)"


text \<open>What a \<open>throw\<close> or a rejected promise carries.\<close>

datatype exn = Thrown string






section \<open>Request router of the chat panel\<close>

datatype AgentType = scout | strategist | diplomat

datatype Sender = user | ai

text \<open>
  Modelled from the spec: \<open>ChatMessage\<close> and the value \<open>orchestrateAgentResponse\<close>
  resolves to are declared outside the component (\<open>../types\<close>,
  \<open>../services/nexusService\<close>); the fields are the ones the handler reads and writes.
  An absent optional field is \<open>None\<close>. The message's \<open>text\<close> is written \<open>msg_text\<close>, a
  source's \<open>title\<close> is \<open>source_title\<close>, and the response's \<open>agent\<close> and \<open>sources\<close> are
  \<open>response_agent\<close> and \<open>response_sources\<close>.
\<close>

record Source =
  source_title :: string
  uri :: string

record ChatMessage =
  sender :: Sender
  msg_text :: string
  agent :: "AgentType option"
  sources :: "Source list option"

record AgentResponse =
  content :: string
  response_agent :: "AgentType option"
  response_sources :: "Source list option"

text \<open>
  The component's state (the four \<open>useState\<close> cells the handler writes), and two traces
  of what the handler does to the outside: the calls of the responder with their
  arguments, and the lines written with \<open>console.error\<close>.
\<close>

record InquireState =
  messages :: "ChatMessage list"
  inputText :: string
  activeAgent :: "AgentType option"
  agentStatus :: string
  responderCalls :: "(string \<times> string) list"
  consoleErrors :: "(string \<times> exn) list"

subsection \<open>String operations\<close>

text \<open>
  A text is a list of 8-bit characters, read as the code units U+0000 to U+00FF.
  On these \<open>toLowerCase\<close> maps A-Z and the capital letters U+00C0 to U+00DE (U+00D7, the
  multiplication sign, apart) to the letter 32 places on, and \<open>trim\<close> strips tab, line
  feed, vertical tab, form feed, carriage return, space and no-break space.
\<close>

definition lower_char :: "char \<Rightarrow> char" where
  "lower_char c =
    (let n = (of_char c :: nat)
     in if (65 \<le> n \<and> n \<le> 90) \<or> (192 \<le> n \<and> n \<le> 222 \<and> n \<noteq> 215)
        then char_of (n + 32) else c)"

definition toLowerCase :: "string \<Rightarrow> string" where
  "toLowerCase s = map lower_char s"

definition is_space :: "char \<Rightarrow> bool" where
  "is_space c = ((of_char c :: nat) \<in> {9, 10, 11, 12, 13, 32, 160})"

definition trim :: "string \<Rightarrow> string" where
  "trim s = rev (dropWhile is_space (rev (dropWhile is_space s)))"

text \<open>\<open>s.includes(t)\<close>: \<open>t\<close> occurs in \<open>s\<close> at some position.\<close>

fun includes_str :: "string \<Rightarrow> string \<Rightarrow> bool" where
  "includes_str [] t = (t = [])"
| "includes_str (c # cs) t = (take (length t) (c # cs) = t \<or> includes_str cs t)"

subsection \<open>\<open>handleSendMessage\<close>\<close>

text \<open>The classification chain, with the status line each agent shows.\<close>

definition selectAgent :: "string \<Rightarrow> 'a InquireState_scheme \<Rightarrow> 'a InquireState_scheme" where
  "selectAgent userMsg s =
    (if includes_str (toLowerCase userMsg) ''news'' \<or> includes_str (toLowerCase userMsg) ''search''
     then s\<lparr>activeAgent := Some scout, agentStatus := ''Scouring global databases...''\<rparr>
     else if includes_str (toLowerCase userMsg) ''negotiate''
     then s\<lparr>activeAgent := Some diplomat, agentStatus := ''Analyzing cultural nuance...''\<rparr>
     else s\<lparr>activeAgent := Some strategist, agentStatus := ''Simulating strategic outcomes...''\<rparr>)"

definition context_of :: "'a ReportParameters_scheme \<Rightarrow> string" where
  "context_of params =
    ''User is a '' @ organizationType params @ '' in '' @ region params @
    ''. Industry: '' @ join '', '' (industry params) @ ''.''"

text \<open>
  An \<open>async\<close> function runs synchronously up to its first \<open>await\<close>. This is that part:
  \<open>None\<close> when the guard returns, otherwise the two arguments of the pending call of
  the responder. (The context string is built inside the \<open>try\<close>; building it cannot
  throw.)
\<close>

definition handleSendMessage_sync ::
  "'p ReportParameters_scheme \<Rightarrow> 'a InquireState_scheme \<Rightarrow>
   (string \<times> string) option \<times> 'a InquireState_scheme" where
  "handleSendMessage_sync params s =
    (if trim (inputText s) = [] then (None, s)
     else
       (let userMsg = inputText s;
            s1 = s\<lparr>messages := messages s @
                   [\<lparr>sender = user, msg_text = userMsg, agent = None, sources = None\<rparr>]\<rparr>;
            s2 = s1\<lparr>inputText := []\<rparr>;
            s3 = selectAgent userMsg s2
        in (Some (userMsg, context_of params), s3)))"

text \<open>
  \<open>try { body } catch (e) { handler } finally { finalizer }\<close> over a state: each part
  ends normally (\<open>Inr\<close>) or by a throw (\<open>Inl\<close>), and keeps the state it reached.
\<close>

definition try_catch_finally ::
  "('s \<Rightarrow> (exn + unit) \<times> 's) \<Rightarrow> (exn \<Rightarrow> 's \<Rightarrow> (exn + unit) \<times> 's) \<Rightarrow>
   ('s \<Rightarrow> (exn + unit) \<times> 's) \<Rightarrow> 's \<Rightarrow> (exn + unit) \<times> 's" where
  "try_catch_finally body handler finalizer s =
    (let (r1, s1) = body s;
         (r2, s2) = (case r1 of Inl e \<Rightarrow> handler e s1 | Inr u \<Rightarrow> (Inr u, s1));
         (r3, s3) = finalizer s2
     in (case r3 of Inl e \<Rightarrow> (Inl e, s3) | Inr u \<Rightarrow> (r2, s3)))"

text \<open>
  The rest of the handler, run when the awaited promise settles: \<open>Inr\<close> a response,
  \<open>Inl\<close> a rejection, which the \<open>await\<close> rethrows inside the \<open>try\<close>. The result is how
  the handler's own promise settles.
\<close>

definition handleSendMessage_resume ::
  "exn + AgentResponse \<Rightarrow> 'a InquireState_scheme \<Rightarrow> (exn + unit) \<times> 'a InquireState_scheme" where
  "handleSendMessage_resume outcome =
    try_catch_finally
      (\<lambda>s. case outcome of
              Inl e \<Rightarrow> (Inl e, s)
            | Inr response \<Rightarrow>
                (Inr (), s\<lparr>messages := messages s @
                   [\<lparr>sender = ai, msg_text = content response,
                     agent = response_agent response, sources = response_sources response\<rparr>]\<rparr>))
      (\<lambda>e s. (Inr (), s\<lparr>consoleErrors := consoleErrors s @ [(''Chat Error'', e)],
                          messages := messages s @
                            [\<lparr>sender = ai, msg_text = ''System overload. Re-routing...'',
                              agent = None, sources = None\<rparr>]\<rparr>))
      (\<lambda>s. (Inr (), s\<lparr>activeAgent := None, agentStatus := []\<rparr>))"

text \<open>
  The whole handler against a responder \<open>orchestrateAgentResponse\<close>, with no other event
  between the call and its settling.
\<close>

definition handleSendMessage ::
  "(string \<Rightarrow> string \<Rightarrow> exn + AgentResponse) \<Rightarrow> 'p ReportParameters_scheme \<Rightarrow>
   'a InquireState_scheme \<Rightarrow> (exn + unit) \<times> 'a InquireState_scheme" where
  "handleSendMessage orchestrateAgentResponse params s =
    (case handleSendMessage_sync params s of
       (None, s') \<Rightarrow> (Inr (), s')
     | (Some (userMsg, context), s') \<Rightarrow>
         handleSendMessage_resume (orchestrateAgentResponse userMsg context)
           (s'\<lparr>responderCalls := responderCalls s' @ [(userMsg, context)]\<rparr>))"

section \<open>Auxiliary definitions for the statements\<close>

text \<open>The modules an intent id contributes: those of the first catalog entry with that id.\<close>

definition modules_of :: "StrategicIntent list \<Rightarrow> string \<Rightarrow> string set" where
  "modules_of cat i =
    (case find (\<lambda>x. intent_id x = i) cat of
       Some intent \<Rightarrow> set (recommendedModules intent) | None \<Rightarrow> {})"

text \<open>Concrete inputs on which the theorems below are instantiated.\<close>

definition example_catalog :: "StrategicIntent list" where
  "example_catalog =
    [\<lparr>intent_id = ''market_entry'', title = ''Market Entry'', description = ''Enter a new market'',
      recommendedModules = [''rroi'', ''seam'', ''geopolitics''], personaAlignment = [''All'']\<rparr>,
     \<lparr>intent_id = ''partnership'', title = ''Partnership'', description = ''Find partners'',
      recommendedModules = [''partner_intel'', ''seam'', ''custom_scan''],
      personaAlignment = [''Government'']\<rparr>]"


definition example_params :: ReportParameters where
  "example_params =
    \<lparr>skillLevel = ''expert'', userName = ''Ada'', userDepartment = ''Strategy'',
     userEmail = ''ada@example.org'', userPhone = ''0'', organizationType = ''Government'',
     organizationSubType = ''Agency'', customOrganizationType = [],
     customOrganizationSubType = [], userCountry = ''Australia'', region = ''Asia-Pacific'',
     userAddress = [], userWebsite = [], industry = [''Energy'', ''Mining''],
     initialThought = None, problemStatement = None, uploadedFileName = None,
     uploadedDocument = False, selectedIntents = None, selectedIntent = None\<rparr>"

definition example_state :: InquireState where
  "example_state =
    \<lparr>messages = [], inputText = ''Latest NEWS: how to Negotiate'', activeAgent = None,
     agentStatus = [], responderCalls = [], consoleErrors = []\<rparr>"

definition failing_responder :: "string \<Rightarrow> string \<Rightarrow> exn + AgentResponse" where
  "failing_responder userMsg context = Inl (Thrown ''503'')"

section \<open>The resolver: supporting lemmas\<close>

lemma set_set_add: "set (set_add x s) = insert x (set s)"
  by (auto simp: set_add_def)

lemma distinct_set_add: "distinct s \<Longrightarrow> distinct (set_add x s)"
  by (simp add: set_add_def)

lemma set_foldl_set_add: "set (foldl (\<lambda>s m. set_add m s) ms xs) = set ms \<union> set xs"
  by (induction xs arbitrary: ms) (auto simp: set_set_add)

lemma distinct_foldl_set_add: "distinct ms \<Longrightarrow> distinct (foldl (\<lambda>s m. set_add m s) ms xs)"
  by (induction xs arbitrary: ms) (auto simp: distinct_set_add)

lemma set_add_intent: "set (add_intent cat ms i) = set ms \<union> modules_of cat i"
  by (simp add: add_intent_def modules_of_def set_foldl_set_add split: option.split)

lemma distinct_add_intent: "distinct ms \<Longrightarrow> distinct (add_intent cat ms i)"
  by (simp add: add_intent_def distinct_foldl_set_add split: option.split)

lemma set_foldl_add_intent:
  "set (foldl (add_intent cat) ms ids) = set ms \<union> (\<Union>i\<in>set ids. modules_of cat i)"
  by (induction ids arbitrary: ms) (auto simp: set_add_intent)

lemma distinct_foldl_add_intent: "distinct ms \<Longrightarrow> distinct (foldl (add_intent cat) ms ids)"
  by (induction ids arbitrary: ms) (auto simp: distinct_add_intent)

text \<open>The active set is the two core modules and what the selected intents recommend.\<close>

lemma set_activeEngines:
  "set (activeEngines cat p) =
     {''geopolitics'', ''final_review''} \<union> (\<Union>i\<in>set (selectedIds p). modules_of cat i)"
  by (auto simp: activeEngines_def Let_def set_foldl_add_intent set_set_add)

text \<open>\<open>Array.from\<close> of a \<open>Set\<close> has no duplicates.\<close>

lemma distinct_activeEngines: "distinct (activeEngines cat p)"
  by (simp add: activeEngines_def Let_def distinct_foldl_add_intent set_add_def)

lemma add_intent_unknown: "i \<notin> set (map intent_id cat) \<Longrightarrow> add_intent cat ms i = ms"
proof -
  assume "i \<notin> set (map intent_id cat)"
  then have "find (\<lambda>x. intent_id x = i) cat = None"
    by (auto simp: find_None_iff)
  then show ?thesis by (simp add: add_intent_def)
qed

lemma foldl_add_intent_filter:
  "foldl (add_intent cat) ms (filter (\<lambda>i. i \<in> set (map intent_id cat)) ids) =
   foldl (add_intent cat) ms ids"
  by (induction ids arbitrary: ms) (simp_all add: add_intent_unknown)

subsection \<open>Phase grouping\<close>

text \<open>
  Whatever \<open>MODULE_PHASES[engineId] || 'Execution'\<close> yields is one of the four phase names
  or a value inherited from \<open>Object.prototype\<close>; the latter only for an inherited name.
\<close>

lemma phase_of_cases:
  "phase_of e = JString ''Macro'' \<or> phase_of e = JString ''Integrity'' \<or>
   phase_of e = JString ''Expansion'' \<or> phase_of e = JString ''Execution'' \<or> phase_of e = JObject"
  by (simp add: phase_of_def js_or_def get_prop_def MODULE_PHASES_def split: option.split)

lemma phase_of_string:
  "phase_of e = JString ph \<Longrightarrow> ph \<in> {''Macro'', ''Integrity'', ''Expansion'', ''Execution''}"
  using phase_of_cases [of e] by auto

lemma phase_of_own: "e \<notin> set Object_prototype_keys \<Longrightarrow> phase_of e \<noteq> JObject"
  by (simp add: phase_of_def js_or_def get_prop_def split: option.split)

lemma phase_of_unlisted:
  "e \<notin> set (map fst MODULE_PHASES) \<Longrightarrow> e \<notin> set Object_prototype_keys \<Longrightarrow>
   phase_of e = JString ''Execution''"
proof -
  assume "e \<notin> set (map fst MODULE_PHASES)" and o: "e \<notin> set Object_prototype_keys"
  then have "map_of MODULE_PHASES e = None"
    by (simp add: map_of_eq_None_iff)
  with o show ?thesis
    by (simp add: phase_of_def js_or_def get_prop_def)
qed

lemma map_no_key:
  "ph \<notin> fst ` set gs \<Longrightarrow> map (\<lambda>(k, xs). (k, if ph = k then xs @ [e] else xs)) gs = gs"
  by (induction gs) auto

lemma push_group_distinct:
  "distinct (map fst gs) \<Longrightarrow>
   push_group ph e gs = map (\<lambda>(k, xs). (k, if ph = k then xs @ [e] else xs)) gs"
  by (induction gs) (auto simp: map_no_key)

lemma place_engine_distinct:
  "place_engine gs e = map (\<lambda>(k, xs). (k, if phase_of e = JString k then xs @ [e] else xs)) gs"
  if "distinct (map fst gs)"
proof (cases "phase_of e")
  case (JString ph)
  show ?thesis
  proof (cases "map_of gs ph")
    case None
    then have "ph \<notin> fst ` set gs" by (simp add: map_of_eq_None_iff)
    then have "map (\<lambda>(k, xs). (k, if ph = k then xs @ [e] else xs)) gs = gs"
      by (rule map_no_key)
    then show ?thesis using None JString
      by (simp add: place_engine_def)
  next
    case (Some xs)
    then show ?thesis using JString that
      by (simp add: place_engine_def push_group_distinct)
  qed
qed (simp_all add: place_engine_def)

lemma foldl_place_engine:
  "distinct (map fst gs) \<Longrightarrow>
   foldl place_engine gs es =
   map (\<lambda>(k, xs). (k, xs @ filter (\<lambda>e. phase_of e = JString k) es)) gs"
proof (induction es arbitrary: gs)
  case Nil
  then show ?case by simp
next
  case (Cons e es)
  have d: "distinct (map fst (place_engine gs e))"
    using Cons.prems by (simp add: place_engine_distinct comp_def case_prod_unfold)
  show ?case
    using Cons.prems
    by (simp add: Cons.IH [OF d]) (simp add: place_engine_distinct comp_def case_prod_unfold)
qed

text \<open>
  The result always has the four groups, in phase order, and each group holds, in the
  order of the active list, the engines whose phase value is that group's name.
\<close>

lemma enginesByPhase_filter:
  "enginesByPhase es =
    [(''Macro'', filter (\<lambda>e. phase_of e = JString ''Macro'') es),
     (''Integrity'', filter (\<lambda>e. phase_of e = JString ''Integrity'') es),
     (''Expansion'', filter (\<lambda>e. phase_of e = JString ''Expansion'') es),
     (''Execution'', filter (\<lambda>e. phase_of e = JString ''Execution'') es)]"
  by (simp add: enginesByPhase_def foldl_place_engine)

lemma phase_keys:
  "map fst (enginesByPhase es) = [''Macro'', ''Integrity'', ''Expansion'', ''Execution'']"
  by (simp add: enginesByPhase_filter)

text \<open>
  An engine id that is not a property name of \<open>Object.prototype\<close> lies in exactly one
  group when it is active, and in none when it is not.
\<close>

lemma exactly_one_group:
  assumes "e \<notin> set Object_prototype_keys"
  shows "length (filter (\<lambda>(k, xs). e \<in> set xs) (enginesByPhase es)) = (if e \<in> set es then 1 else 0)"
  using phase_of_cases [of e] phase_of_own [OF assms]
  by (auto simp: enginesByPhase_filter)

section \<open>The resolver: claims\<close>

text \<open>
  Claim C3. For every selection, also the empty one and one with unknown ids, the active
  module set contains both core modules \<open>geopolitics\<close> and \<open>final_review\<close>; and it is a
  function of the selection and the catalog alone: two parameter objects with the same
  \<open>selectedIntents\<close> resolve to the same list, whatever their other fields hold.
\<close>

theorem baseline_always_active:
  "''geopolitics'' \<in> set (activeEngines cat p) \<and>
   ''final_review'' \<in> set (activeEngines cat p) \<and>
   (\<forall>p'. selectedIntents p' = selectedIntents p \<longrightarrow> activeEngines cat p' = activeEngines cat p)"
  by (simp add: set_activeEngines) (simp add: activeEngines_def selectedIds_def)

theorem baseline_always_active_witness:
  "''geopolitics'' \<in> set (activeEngines example_catalog
      (example_params\<lparr>selectedIntents := Some [''partnership'', ''unheard_of'']\<rparr>)) \<and>
   ''final_review'' \<in> set (activeEngines example_catalog
      (example_params\<lparr>selectedIntents := Some [''partnership'', ''unheard_of'']\<rparr>)) \<and>
   selectedIntents (example_params\<lparr>selectedIntents := Some [''partnership'', ''unheard_of''],
      region := ''Europe'', problemStatement := Some ''Expand''\<rparr>) =
     selectedIntents (example_params\<lparr>selectedIntents := Some [''partnership'', ''unheard_of'']\<rparr>) \<and>
   activeEngines example_catalog
     (example_params\<lparr>selectedIntents := Some [''partnership'', ''unheard_of''],
        region := ''Europe'', problemStatement := Some ''Expand''\<rparr>) =
   activeEngines example_catalog
     (example_params\<lparr>selectedIntents := Some [''partnership'', ''unheard_of'']\<rparr>)"
proof -
  have s: "selectedIntents (example_params\<lparr>selectedIntents := Some [''partnership'', ''unheard_of''],
      region := ''Europe'', problemStatement := Some ''Expand''\<rparr>) =
     selectedIntents (example_params\<lparr>selectedIntents := Some [''partnership'', ''unheard_of'']\<rparr>)"
    by simp
  from baseline_always_active [of example_catalog
      "example_params\<lparr>selectedIntents := Some [''partnership'', ''unheard_of'']\<rparr>"] s
  show ?thesis by blast
qed

text \<open>
  Claim C5. Resolution is monotone: when every id selected in \<open>p1\<close> is selected in
  \<open>p2\<close>, every module active for \<open>p1\<close> is active for \<open>p2\<close>.
\<close>

theorem resolution_monotone:
  assumes "set (selectedIds p1) \<subseteq> set (selectedIds p2)"
  shows "set (activeEngines cat p1) \<subseteq> set (activeEngines cat p2)"
  using assms by (auto simp: set_activeEngines)

theorem resolution_monotone_witness:
  "set (selectedIds (example_params\<lparr>selectedIntents := Some [''market_entry'']\<rparr>)) \<subseteq>
     set (selectedIds (example_params\<lparr>selectedIntents := Some [''partnership'', ''market_entry'']\<rparr>)) \<and>
   set (activeEngines example_catalog (example_params\<lparr>selectedIntents := Some [''market_entry'']\<rparr>)) \<subseteq>
     set (activeEngines example_catalog
        (example_params\<lparr>selectedIntents := Some [''partnership'', ''market_entry'']\<rparr>))"
proof -
  have s: "set (selectedIds (example_params\<lparr>selectedIntents := Some [''market_entry'']\<rparr>)) \<subseteq>
     set (selectedIds (example_params\<lparr>selectedIntents := Some [''partnership'', ''market_entry'']\<rparr>))"
    by (simp add: selectedIds_def)
  from resolution_monotone [OF s, of example_catalog] s show ?thesis by simp
qed

text \<open>
  Claim C6. With nothing selected (the list empty or absent) the active modules are
  exactly \<open>geopolitics\<close> and \<open>final_review\<close>, and the grouping puts the first under
  \<open>Macro\<close> and the second under \<open>Execution\<close>, as \<open>MODULE_PHASES\<close> assigns them, the other
  two groups being empty.
\<close>

theorem empty_selection_baseline:
  assumes "selectedIds p = []"
  shows "activeEngines cat p = [''geopolitics'', ''final_review''] \<and>
         enginesByPhase (activeEngines cat p) =
           [(''Macro'', [''geopolitics'']), (''Integrity'', []), (''Expansion'', []),
            (''Execution'', [''final_review''])]"
proof -
  have a: "activeEngines cat p = [''geopolitics'', ''final_review'']"
    using assms by (simp add: activeEngines_def set_add_def)
  have "enginesByPhase [''geopolitics'', ''final_review''] =
           [(''Macro'', [''geopolitics'']), (''Integrity'', []), (''Expansion'', []),
            (''Execution'', [''final_review''])]"
    by (simp add: enginesByPhase_def place_engine_def phase_of_def js_or_def get_prop_def
        MODULE_PHASES_def)
  with a show ?thesis by simp
qed

theorem empty_selection_baseline_witness:
  "selectedIds example_params = [] \<and>
   activeEngines example_catalog example_params = [''geopolitics'', ''final_review''] \<and>
   enginesByPhase (activeEngines example_catalog example_params) =
     [(''Macro'', [''geopolitics'']), (''Integrity'', []), (''Expansion'', []),
      (''Execution'', [''final_review''])]"
proof -
  have e: "selectedIds example_params = []"
    by (simp add: selectedIds_def example_params_def)
  from empty_selection_baseline [OF e, of example_catalog] e show ?thesis by blast
qed

text \<open>
  Claim C7. An id that no catalog entry carries contributes nothing and raises nothing
  (the resolver is a total function): resolving a selection gives the same list as
  resolving it with the unknown ids removed.
\<close>

theorem unknown_intents_ignored:
  "activeEngines cat p =
   activeEngines cat (p\<lparr>selectedIntents :=
      Some (filter (\<lambda>i. i \<in> set (map intent_id cat)) (selectedIds p))\<rparr>)"
proof -
  have "selectedIds (p\<lparr>selectedIntents := Some ys\<rparr>) = ys" for ys
    by (simp add: selectedIds_def)
  then show ?thesis
    unfolding activeEngines_def Let_def by (simp only: foldl_add_intent_filter)
qed


section \<open>The selection state: claims\<close>

lemma set_toggle:
  "set (selectedIds (toggleIntent p a)) =
     (if a \<in> set (selectedIds p) then set (selectedIds p) - {a} else insert a (set (selectedIds p)))"
  by (auto simp: toggleIntent_def Let_def selectedIds_def)

lemma mem_toggle:
  "x \<in> set (selectedIds (toggleIntent p a)) \<longleftrightarrow> (x \<in> set (selectedIds p)) \<noteq> (x = a)"
  by (auto simp: set_toggle)

lemma mem_foldl_toggle:
  "x \<in> set (selectedIds (foldl toggleIntent p ids)) \<longleftrightarrow>
     (x \<in> set (selectedIds p)) \<noteq> odd (count_list ids x)"
  by (induction ids arbitrary: p) (auto simp: mem_toggle)

text \<open>
  Claim C9. Membership in the selection depends only on how often each id was toggled:
  toggling \<open>a\<close> then \<open>b\<close> selects the same ids as toggling \<open>b\<close> then \<open>a\<close>; toggling an id
  twice restores the membership; and after any sequence of toggles an id is selected
  exactly when its initial membership was flipped an odd number of times.
\<close>

theorem toggle_order_irrelevant:
  "set (selectedIds (toggleIntent (toggleIntent p a) b)) =
     set (selectedIds (toggleIntent (toggleIntent p b) a)) \<and>
   set (selectedIds (toggleIntent (toggleIntent p a) a)) = set (selectedIds p) \<and>
   (x \<in> set (selectedIds (foldl toggleIntent p ids)) \<longleftrightarrow>
      (x \<in> set (selectedIds p)) \<noteq> odd (count_list ids x))"
proof -
  have "set (selectedIds (toggleIntent (toggleIntent p a) b)) =
     set (selectedIds (toggleIntent (toggleIntent p b) a))"
    by (rule set_eqI) (auto simp: mem_toggle)
  moreover have "set (selectedIds (toggleIntent (toggleIntent p a) a)) = set (selectedIds p)"
    by (rule set_eqI) (auto simp: mem_toggle)
  ultimately show ?thesis by (simp add: mem_foldl_toggle)
qed







section \<open>The router: claims\<close>

text \<open>\<open>includes\<close> finds exactly the texts that have the needle as a contiguous part.\<close>

lemma includes_str_iff: "includes_str s t \<longleftrightarrow> (\<exists>u v. s = u @ t @ v)"
proof (induction s)
  case Nil
  then show ?case by simp
next
  case (Cons c cs)
  have pre: "take (length t) (c # cs) = t \<longleftrightarrow> (\<exists>v. c # cs = t @ v)"
    by (metis append_eq_conv_conj)
  have "(\<exists>u v. c # cs = u @ t @ v) \<longleftrightarrow> (\<exists>v. c # cs = t @ v) \<or> (\<exists>u v. cs = u @ t @ v)"
  proof
    assume "\<exists>u v. c # cs = u @ t @ v"
    then obtain u v where e: "c # cs = u @ t @ v" by blast
    show "(\<exists>v. c # cs = t @ v) \<or> (\<exists>u v. cs = u @ t @ v)"
    proof (cases u)
      case Nil
      with e show ?thesis by auto
    next
      case (Cons a u')
      with e have "cs = u' @ t @ v" by simp
      then show ?thesis by blast
    qed
  next
    assume "(\<exists>v. c # cs = t @ v) \<or> (\<exists>u v. cs = u @ t @ v)"
    then show "\<exists>u v. c # cs = u @ t @ v"
    proof
      assume "\<exists>v. c # cs = t @ v"
      then obtain v where "c # cs = [] @ t @ v" by auto
      then show ?thesis by blast
    next
      assume "\<exists>u v. cs = u @ t @ v"
      then obtain u v where "c # cs = (c # u) @ t @ v" by auto
      then show ?thesis by blast
    qed
  qed
  with pre Cons.IH show ?case by simp
qed

lemma dropWhile_all: "(\<forall>x\<in>set (dropWhile P s). P x) \<longleftrightarrow> (\<forall>x\<in>set s. P x)"
  by (induction s) auto

text \<open>The guard \<open>!inputText.trim()\<close> holds exactly for a text of white space only.\<close>

lemma trim_blank: "trim s = [] \<longleftrightarrow> list_all is_space s"
  by (simp add: trim_def list_all_iff dropWhile_all)

text \<open>
  Claim C1. The classification chain gives every text exactly one agent, by substring
  tests on the lowercased text in a fixed order: \<open>scout\<close> when it contains \<open>news\<close> or
  \<open>search\<close>, otherwise \<open>diplomat\<close> when it contains \<open>negotiate\<close>, otherwise \<open>strategist\<close>;
  so a text with both \<open>news\<close> and \<open>negotiate\<close> is a scout's. The handler applies the
  chain to the submitted text whenever that passes the guard.
\<close>

theorem router_priority:
  "activeAgent (selectAgent userMsg s) =
     Some (if (\<exists>u v. toLowerCase userMsg = u @ ''news'' @ v) \<or>
              (\<exists>u v. toLowerCase userMsg = u @ ''search'' @ v) then scout
           else if (\<exists>u v. toLowerCase userMsg = u @ ''negotiate'' @ v) then diplomat
           else strategist) \<and>
   (trim (inputText s) \<noteq> [] \<longrightarrow>
      activeAgent (snd (handleSendMessage_sync params s)) =
        activeAgent (selectAgent (inputText s) s))"
  unfolding includes_str_iff [symmetric]
  by (simp add: handleSendMessage_sync_def Let_def selectAgent_def)

theorem router_priority_witness:
  "trim (inputText example_state) \<noteq> [] \<and>
   (\<exists>u v. toLowerCase (inputText example_state) = u @ ''news'' @ v) \<and>
   (\<exists>u v. toLowerCase (inputText example_state) = u @ ''negotiate'' @ v) \<and>
   activeAgent (snd (handleSendMessage_sync example_params example_state)) = Some scout"
proof -
  have t: "trim (inputText example_state) \<noteq> []"
    by (simp add: example_state_def trim_def is_space_def)
  have n: "includes_str (toLowerCase (inputText example_state)) ''news''"
    unfolding example_state_def by code_simp
  have g: "includes_str (toLowerCase (inputText example_state)) ''negotiate''"
    unfolding example_state_def by code_simp
  from n g t router_priority [of "inputText example_state" example_state example_params]
  show ?thesis
    unfolding includes_str_iff [symmetric] by simp
qed

text \<open>
  Claim C2. For a text that passes the guard the handler's promise always resolves and
  never rejects, and the state it leaves has \<open>activeAgent\<close> \<open>null\<close> and an empty status,
  whatever the responder did; when the responder throws or rejects, the transcript gains
  the user's message and then the reply \<open>System overload. Re-routing...\<close> with no agent and
  no sources.
\<close>

theorem responder_failure_contained:
  assumes "trim (inputText s) \<noteq> []"
  shows "fst (handleSendMessage orch params s) = Inr () \<and>
         activeAgent (snd (handleSendMessage orch params s)) = None \<and>
         agentStatus (snd (handleSendMessage orch params s)) = [] \<and>
         ((\<exists>e. orch (inputText s) (context_of params) = Inl e) \<longrightarrow>
            messages (snd (handleSendMessage orch params s)) =
              messages s @
                [\<lparr>sender = user, msg_text = inputText s, agent = None, sources = None\<rparr>,
                 \<lparr>sender = ai, msg_text = ''System overload. Re-routing...'',
                  agent = None, sources = None\<rparr>])"
  using assms
  by (cases "orch (inputText s) (context_of params)")
     (simp_all add: handleSendMessage_def handleSendMessage_sync_def Let_def
        handleSendMessage_resume_def try_catch_finally_def selectAgent_def)

theorem responder_failure_contained_witness:
  "trim (inputText example_state) \<noteq> [] \<and>
   failing_responder (inputText example_state) (context_of example_params) = Inl (Thrown ''503'') \<and>
   fst (handleSendMessage failing_responder example_params example_state) = Inr () \<and>
   activeAgent (snd (handleSendMessage failing_responder example_params example_state)) = None \<and>
   agentStatus (snd (handleSendMessage failing_responder example_params example_state)) = [] \<and>
   messages (snd (handleSendMessage failing_responder example_params example_state)) =
     [\<lparr>sender = user, msg_text = ''Latest NEWS: how to Negotiate'', agent = None, sources = None\<rparr>,
      \<lparr>sender = ai, msg_text = ''System overload. Re-routing...'', agent = None, sources = None\<rparr>]"
proof -
  have t: "trim (inputText example_state) \<noteq> []"
    by (simp add: example_state_def trim_def is_space_def)
  have f: "\<exists>e. failing_responder (inputText example_state) (context_of example_params) = Inl e"
    by (simp add: failing_responder_def)
  from responder_failure_contained [OF t, of failing_responder example_params] f t
  show ?thesis
    by (simp add: failing_responder_def) (simp add: example_state_def)
qed

text \<open>
  Claim C8. When the input is empty or white space only, the handler returns at once:
  the state is the one it was called in, so no message was appended, no agent set, the
  input not cleared, and the responder not called (its call trace is unchanged).
\<close>

theorem blank_input_ignored:
  assumes "list_all is_space (inputText s)"
  shows "handleSendMessage orchestrateAgentResponse params s = (Inr (), s)"
  using assms by (simp add: handleSendMessage_def handleSendMessage_sync_def trim_blank)

theorem blank_input_ignored_witness:
  "list_all is_space (inputText (example_state\<lparr>inputText := ''   ''\<rparr>)) \<and>
   handleSendMessage failing_responder example_params (example_state\<lparr>inputText := ''   ''\<rparr>) =
     (Inr (), example_state\<lparr>inputText := ''   ''\<rparr>)"
proof -
  have b: "list_all is_space (inputText (example_state\<lparr>inputText := ''   ''\<rparr>))"
    by (simp add: is_space_def)
  from blank_input_ignored [OF b, of failing_responder example_params] b
  show ?thesis by simp
qed

end
